theory Spec2Isabelle
  imports Main "HOL-Library.Word"
begin

unbundle bit_operations_syntax

section \<open>Basic integer types (Primpoly.hpp)\<close>

text \<open>
  \<^verbatim>\<open>ppuint32\<close> is \<^verbatim>\<open>unsigned int\<close> (32 bits, checked by a static assertion) and
  \<^verbatim>\<open>ppuint\<close> is the 64-bit unsigned type.  Arithmetic on both wraps around.
\<close>

type_synonym ppuint32 = "32 word"
type_synonym ppuint = "64 word"

section \<open>The JKISS generator (ppFactor.hpp, class UniformRandomIntegers)\<close>

text \<open>The four private seed words \<^verbatim>\<open>x, y, z, c\<close> of a generator object.\<close>

record jkiss_state =
  seed_x :: ppuint32
  seed_y :: ppuint32
  seed_z :: ppuint32
  seed_c :: ppuint32

text \<open>The default member initialisers of the class.\<close>

definition default_seeds :: jkiss_state where
  "default_seeds =
     \<lparr>seed_x = 123456789, seed_y = 987654321, seed_z = 43219876, seed_c = 6543217\<rparr>"

text \<open>\<^verbatim>\<open>const ppuint32 JKISSMAX { numeric_limits<ppuint32>::max() }\<close>\<close>

definition JKISSMAX :: ppuint32 where
  "JKISSMAX = 4294967295"

definition JKISS_MAGIC_NUM :: ppuint32 where
  "JKISS_MAGIC_NUM = 698769068"

definition how_often_to_reseed :: nat where
  "how_often_to_reseed = 10000"

text \<open>
  \<^verbatim>\<open>jKiss()\<close>: the linear congruential step on x and the xor-shift on y are 32-bit
  operations; the multiply-with-carry step is computed in the 64-bit variable t, whose
  high half becomes c and whose low half becomes z.  The function returns the sum
  \<^verbatim>\<open>x + y + z\<close> and the updated seeds.
\<close>

definition jKiss :: "jkiss_state \<Rightarrow> ppuint32 \<times> jkiss_state" where
  "jKiss s =
     (let x1 = 314527869 * seed_x s + 1234567;
          y1 = seed_y s XOR push_bit 5 (seed_y s);
          y2 = y1 XOR drop_bit 7 y1;
          y3 = y2 XOR push_bit 22 y2;
          t = (4294584393 :: ppuint) * ucast (seed_z s) + ucast (seed_c s);
          c1 = (ucast (drop_bit 32 t) :: ppuint32);
          z1 = (ucast t :: ppuint32)
      in (x1 + y3 + z1, \<lparr>seed_x = x1, seed_y = y3, seed_z = z1, seed_c = c1\<rparr>))"

text \<open>
  The rejection loop of \<^verbatim>\<open>rand()\<close>: \<^verbatim>\<open>while (kiss > within_multiple_of_range) kiss = jKiss() ;\<close>.
  Nothing in the source bounds the number of iterations, so the loop is a partial
  function: \<open>None\<close> means that it never ends.
\<close>

partial_function (option) redraw ::
  "ppuint32 \<Rightarrow> ppuint32 \<Rightarrow> jkiss_state \<Rightarrow> (ppuint32 \<times> jkiss_state) option" where
  "redraw within kiss s =
     (if kiss > within then
        (case jKiss s of (kiss', s') \<Rightarrow> redraw within kiss' s')
      else Some (kiss, s))"

text \<open>
  What a call of \<^verbatim>\<open>rand()\<close> can do besides returning a value: with range 0 the
  expression \<^verbatim>\<open>JKISSMAX % static_cast<ppuint32>(range)\<close> divides by zero.
\<close>

datatype rand_trap = DivisionByZero

text \<open>
  \<^verbatim>\<open>rand()\<close> for a generator with the given range.  \<^verbatim>\<open>IntType\<close> is \<^verbatim>\<open>ppuint\<close> or
  \<^verbatim>\<open>BigInt\<close>; the range (\<open>rng\<close> below, \<open>range\<close> being a constant of HOL) and
  the result are natural numbers here.  The result is
  \<open>None\<close> when the rejection loop does not end, otherwise the trap or the returned
  value together with the seeds the call leaves behind.  After the rejection loop
  the source assigns \<^verbatim>\<open>kiss = jKiss() % range2\<close>, a new draw.
\<close>

definition rand :: "nat \<Rightarrow> jkiss_state \<Rightarrow> (rand_trap + nat \<times> jkiss_state) option" where
  "rand rng s =
     (case jKiss s of (kiss, s1) \<Rightarrow>
        if rng < unat JKISSMAX then
          (if rng = 0 then Some (Inl DivisionByZero)
           else
             (let range2 = (of_nat rng :: ppuint32);
                  within_multiple_of_range = JKISSMAX - (JKISSMAX mod of_nat rng)
              in (case redraw within_multiple_of_range kiss s1 of
                    None \<Rightarrow> None
                  | Some (kiss2, s2) \<Rightarrow>
                      (case jKiss s2 of (kiss3, s3) \<Rightarrow>
                         Some (Inr (unat (kiss3 mod range2), s3))))))
        else Some (Inr (unat kiss, s1)))"

text \<open>
  The first draw of the generator, starting with the draw \<open>kiss\<close> in hand, that is not
  above \<open>within\<close>: the draw on which the rejection loop stops.
\<close>

definition first_accepted :: "nat \<Rightarrow> jkiss_state \<Rightarrow> ppuint32 option" where
  "first_accepted rng s =
     (case jKiss s of (kiss, s1) \<Rightarrow>
        map_option fst (redraw (JKISSMAX - (JKISSMAX mod of_nat rng)) kiss s1))"

text \<open>
  The JKISS step in the words of its description, on the four seed words read as
  natural numbers: x is multiplied by 314527869 and increased by 1234567 modulo 2^32;
  y goes through the xor-shift sequence with the shifts 5 (left), 7 (right) and
  22 (left); t = 4294584393 z + c is formed without reduction, c becomes
  t div 2^32 and z becomes t mod 2^32; the value returned is (x + y + z) mod 2^32.
\<close>

definition jKiss_spec :: "nat \<times> nat \<times> nat \<times> nat \<Rightarrow> nat \<times> (nat \<times> nat \<times> nat \<times> nat)" where
  "jKiss_spec = (\<lambda>(x, y, z, c).
     (let x' = (314527869 * x + 1234567) mod 2 ^ 32;
          y1 = y XOR ((y * 2 ^ 5) mod 2 ^ 32);
          y2 = y1 XOR (y1 div 2 ^ 7);
          y' = y2 XOR ((y2 * 2 ^ 22) mod 2 ^ 32);
          t = 4294584393 * z + c;
          c' = t div 2 ^ 32;
          z' = t mod 2 ^ 32
      in ((x' + y' + z') mod 2 ^ 32, (x', y', z', c'))))"

definition seed_words :: "jkiss_state \<Rightarrow> nat \<times> nat \<times> nat \<times> nat" where
  "seed_words s = (unat (seed_x s), unat (seed_y s), unat (seed_z s), unat (seed_c s))"

section \<open>Exception classes and exit statuses (Primpoly.hpp, ppFactor.hpp, ppArith.hpp, ppUnitTest.hpp)\<close>

text \<open>
  The classes of the objects that can reach the catch clauses of \<^verbatim>\<open>main()\<close>.
  \<open>not_std_exception\<close> stands for a thrown object of a type that does not derive from
  \<^verbatim>\<open>std::exception\<close>; \<open>std_exception\<close> is \<^verbatim>\<open>std::exception\<close> itself.
\<close>

datatype exception_class =
    PrimpolyError
  | ParserError
  | FactorError
  | FactorRangeError
  | BigIntRangeError
  | BigIntDomainError
  | BigIntUnderflow
  | BigIntOverflow
  | BigIntZeroDivide
  | BigIntMathError
  | ArithModPError
  | PolynomialRangeError
  | PolynomialError
  | UnitTestError
  | bad_alloc
  | runtime_error
  | std_exception
  | not_std_exception

text \<open>
  The direct base class.  PrimpolyError, FactorError, FactorRangeError, ArithModPError
  and UnitTestError are declared in the headers at hand.

  Modelled from the spec: the declarations of ParserError, of the BigInt errors and of
  PolynomialError and PolynomialRangeError are in ppParser.hpp, ppBigInt.hpp and
  ppPolynomial.hpp, which are missing.  Section 7 of the spec lists them as error kinds
  of their own; here each family derives from \<^verbatim>\<open>runtime_error\<close> as the declared
  classes do, with the specialised BigInt errors below BigIntMathError and
  PolynomialRangeError below PolynomialError, the way FactorRangeError is below
  FactorError.
\<close>

fun base_class :: "exception_class \<Rightarrow> exception_class option" where
  "base_class PrimpolyError = Some runtime_error"
| "base_class ParserError = Some runtime_error"
| "base_class FactorError = Some runtime_error"
| "base_class FactorRangeError = Some FactorError"
| "base_class BigIntRangeError = Some BigIntMathError"
| "base_class BigIntDomainError = Some BigIntMathError"
| "base_class BigIntUnderflow = Some BigIntMathError"
| "base_class BigIntOverflow = Some BigIntMathError"
| "base_class BigIntZeroDivide = Some BigIntMathError"
| "base_class BigIntMathError = Some runtime_error"
| "base_class ArithModPError = Some runtime_error"
| "base_class PolynomialRangeError = Some PolynomialError"
| "base_class PolynomialError = Some runtime_error"
| "base_class UnitTestError = Some runtime_error"
| "base_class bad_alloc = Some std_exception"
| "base_class runtime_error = Some std_exception"
| "base_class std_exception = None"
| "base_class not_std_exception = None"

text \<open>
  \<open>is_a thrown handled\<close>: a catch clause for \<open>handled\<close> accepts an object of class
  \<open>thrown\<close>.  No chain of base classes is longer than three steps.
\<close>

definition is_a :: "exception_class \<Rightarrow> exception_class \<Rightarrow> bool" where
  "is_a thrown handled =
     (thrown = handled
      \<or> base_class thrown = Some handled
      \<or> Option.bind (base_class thrown) base_class = Some handled
      \<or> Option.bind (Option.bind (base_class thrown) base_class) base_class = Some handled)"

datatype ReturnStatus = Success | AskForHelp | PNotPrime | RangeError | InternalError | Reserved

text \<open>The integer that \<^verbatim>\<open>static_cast<int>\<close> gives for each enumerator.\<close>

fun status_code :: "ReturnStatus \<Rightarrow> int" where
  "status_code Success = 0"
| "status_code AskForHelp = 1"
| "status_code PNotPrime = 2"
| "status_code RangeError = 3"
| "status_code InternalError = 4"
| "status_code Reserved = 5"

section \<open>Seeding a generator (constructor of UniformRandomIntegers)\<close>

text \<open>
  The entropy device is the list of 32-bit words that successive reads of
  \<^verbatim>\<open>/dev/urandom\<close> deliver; a read from the empty list is a device that cannot be
  opened or read, for which the source throws FactorError.
\<close>

fun trueRandomNumberFromDevice :: "ppuint32 list \<Rightarrow> exception_class + ppuint32 \<times> ppuint32 list" where
  "trueRandomNumberFromDevice [] = Inl FactorError"
| "trueRandomNumberFromDevice (w # dev) = Inr (w, dev)"

text \<open>\<^verbatim>\<open>while ( !(y = trueRandomNumberFromDevice()) ) ;\<close>\<close>

fun nonzero_seed :: "ppuint32 list \<Rightarrow> exception_class + ppuint32 \<times> ppuint32 list" where
  "nonzero_seed [] = Inl FactorError"
| "nonzero_seed (w # dev) = (if w = 0 then nonzero_seed dev else Inr (w, dev))"

text \<open>
  The constructor, as a function of the static counter \<^verbatim>\<open>num_of_initializations\<close>
  (0 when the process starts) and of the entropy device.  It returns the incremented
  counter and either the exception thrown or the seeds of the new generator with what
  is left of the device.  The counter is a C++ \<^verbatim>\<open>int\<close>; the model stops short of
  its overflow after 2^31 - 1 constructions.
\<close>

definition UniformRandomIntegers ::
  "nat \<Rightarrow> ppuint32 list \<Rightarrow> nat \<times> (exception_class + jkiss_state \<times> ppuint32 list)" where
  "UniformRandomIntegers num_of_initializations dev =
     (let num = num_of_initializations + 1 in
      if num mod how_often_to_reseed = 0 then
        (num,
         case trueRandomNumberFromDevice dev of
           Inl e \<Rightarrow> Inl e
         | Inr (x, dev1) \<Rightarrow>
             (case nonzero_seed dev1 of
                Inl e \<Rightarrow> Inl e
              | Inr (y, dev2) \<Rightarrow>
                  (case trueRandomNumberFromDevice dev2 of
                     Inl e \<Rightarrow> Inl e
                   | Inr (z, dev3) \<Rightarrow>
                       (case trueRandomNumberFromDevice dev3 of
                          Inl e \<Rightarrow> Inl e
                        | Inr (r, dev4) \<Rightarrow>
                            Inr (\<lparr>seed_x = x, seed_y = y, seed_z = z,
                                  seed_c = r mod JKISS_MAGIC_NUM + 1\<rparr>, dev4)))))
      else (num, Inr (default_seeds, dev)))"

section \<open>The driver (Primpoly.cpp, main)\<close>

text \<open>
  The flags and inputs that \<^verbatim>\<open>main()\<close> reads from the parser object after
  \<^verbatim>\<open>parseCommandLine\<close>.  The members are written without the underscore that ends
  their names in the source, and \<^verbatim>\<open>n\<close> and \<^verbatim>\<open>p\<close> are \<open>parser_n\<close> and \<open>parser_p\<close>.
\<close>

record 'poly parser =
  print_help :: bool
  test_polynomial_for_primitivity :: bool
  list_all_primitive_polynomials :: bool
  print_operation_count :: bool
  slow_confirm :: bool
  parser_n :: nat
  parser_p :: nat
  test_polynomial :: 'poly

text \<open>
  What \<^verbatim>\<open>main()\<close> calls and does not define: the parser, the unit test, and the
  classes Polynomial and PolyOrder.  Each call either throws or returns; the
  counts \<^verbatim>\<open>getNumPrimPoly()\<close> and \<^verbatim>\<open>getMaxNumPoly()\<close> are BigInt values of the
  PolyOrder object.  \<open>new_PolyOrder\<close> is the construction \<^verbatim>\<open>PolyOrder order( f )\<close>,
  which returns nothing and may throw.
\<close>

record 'poly collaborators =
  parseCommandLine :: "exception_class + 'poly parser"
  unitTest_run :: "exception_class + bool"
  new_PolyOrder :: "'poly \<Rightarrow> exception_class option"
  isPrimitive :: "'poly \<Rightarrow> exception_class + bool"
  maximal_order :: "'poly \<Rightarrow> exception_class + bool"
  getNumPrimPoly :: nat
  getMaxNumPoly :: nat
  initialTrialPoly :: "nat \<Rightarrow> nat \<Rightarrow> 'poly"
  nextTrialPoly :: "'poly \<Rightarrow> 'poly"

text \<open>
  The self check under \<^verbatim>\<open>#ifdef SELF_CHECK\<close> (defined in Primpoly.hpp): a failed
  run and a UnitTestError both become a PrimpolyError; any other exception passes.
\<close>

definition self_check :: "'poly collaborators \<Rightarrow> exception_class option" where
  "self_check env =
     (case unitTest_run env of
        Inl e \<Rightarrow> if is_a e UnitTestError then Some PrimpolyError else Some e
      | Inr passed \<Rightarrow> if passed then None else Some PrimpolyError)"

text \<open>
  The slow confirmation inside the loop: a disagreement of \<^verbatim>\<open>maximal_order()\<close> with
  the fast test throws PolynomialError.
\<close>

definition confirm_slowly :: "'poly collaborators \<Rightarrow> 'poly parser \<Rightarrow> 'poly \<Rightarrow> exception_class option" where
  "confirm_slowly env ps f =
     (if slow_confirm ps then
        (case maximal_order env f of
           Inl e \<Rightarrow> Some e
         | Inr confirmed \<Rightarrow> if confirmed then None else Some PolynomialError)
      else None)"

text \<open>
  The state of the \<^verbatim>\<open>do ... while( !stopTesting )\<close> loop when it is left: the last
  value of \<^verbatim>\<open>is_primitive_poly\<close>, the two counters, and the polynomials written
  to the output as primitive, in order.
\<close>

record 'poly search_result =
  is_primitive_poly :: bool
  num_poly :: nat
  num_primitive_poly :: nat
  reported :: "'poly list"

text \<open>
  One call is one iteration of the loop, entered with the trial polynomial \<open>f\<close>, the
  counters and the output so far.  The \<^verbatim>\<open>break\<close> leaves the loop before
  \<^verbatim>\<open>nextTrialPoly\<close>; otherwise the loop goes on with the next polynomial unless
  \<^verbatim>\<open>stopTesting\<close> is set.
\<close>

function search_loop ::
  "'poly collaborators \<Rightarrow> 'poly parser \<Rightarrow> 'poly \<Rightarrow> nat \<Rightarrow> nat \<Rightarrow> 'poly list
     \<Rightarrow> exception_class + 'poly search_result" where
  "search_loop env ps f num_poly0 num_primitive_poly0 out =
     (let num_poly1 = num_poly0 + 1 in
      case isPrimitive env f of
        Inl e \<Rightarrow> Inl e
      | Inr is_prim \<Rightarrow>
          (let num_primitive_poly1 = (if is_prim then num_primitive_poly0 + 1 else num_primitive_poly0);
               out1 = (if is_prim then out @ [f] else out)
           in case (if is_prim then confirm_slowly env ps f else None) of
                Some e \<Rightarrow> Inl e
              | None \<Rightarrow>
                  if is_prim \<and> num_primitive_poly1 \<ge> getNumPrimPoly env then
                    Inr \<lparr>is_primitive_poly = is_prim, num_poly = num_poly1,
                         num_primitive_poly = num_primitive_poly1, reported = out1\<rparr>
                  else
                    (let tried_all_poly = (num_poly1 \<ge> getMaxNumPoly env);
                         stopTesting = (tried_all_poly \<or> (\<not> list_all_primitive_polynomials ps \<and> is_prim))
                     in if stopTesting then
                          Inr \<lparr>is_primitive_poly = is_prim, num_poly = num_poly1,
                               num_primitive_poly = num_primitive_poly1, reported = out1\<rparr>
                        else search_loop env ps (nextTrialPoly env f) num_poly1 num_primitive_poly1 out1)))"
  by pat_completeness auto
termination
  by (relation "measure (\<lambda>(env, ps, f, num_poly0, num_primitive_poly0, out). getMaxNumPoly env - num_poly0)") auto

declare search_loop.simps [simp del]

text \<open>
  The body of the \<^verbatim>\<open>try\<close> block: \<open>Inl\<close> the exception that leaves it, \<open>Inr\<close> the
  status it returns.
\<close>

definition try_block :: "'poly collaborators \<Rightarrow> exception_class + ReturnStatus" where
  "try_block env =
     (case parseCommandLine env of
        Inl e \<Rightarrow> Inl e
      | Inr ps \<Rightarrow>
          if print_help ps then Inr AskForHelp
          else
            (case self_check env of
               Some e \<Rightarrow> Inl e
             | None \<Rightarrow>
                 if test_polynomial_for_primitivity ps then
                   (case new_PolyOrder env (test_polynomial ps) of
                      Some e \<Rightarrow> Inl e
                    | None \<Rightarrow>
                        (case isPrimitive env (test_polynomial ps) of
                           Inl e \<Rightarrow> Inl e
                         | Inr is_prim \<Rightarrow>
                             if slow_confirm ps then
                               (case maximal_order env (test_polynomial ps) of
                                  Inl e \<Rightarrow> Inl e
                                | Inr confirmed \<Rightarrow> Inr Success)
                             else Inr Success))
                 else
                   (let f = initialTrialPoly env (parser_n ps) (parser_p ps) in
                    case new_PolyOrder env f of
                      Some e \<Rightarrow> Inl e
                    | None \<Rightarrow>
                        (case search_loop env ps f 0 0 [] of
                           Inl e \<Rightarrow> Inl e
                         | Inr r \<Rightarrow>
                             if \<not> list_all_primitive_polynomials ps \<and> \<not> is_primitive_poly r
                             then Inl PolynomialError
                             else Inr Success))))"

text \<open>The catch clauses of \<^verbatim>\<open>main()\<close>, in the order of the source.\<close>

datatype catch_clause = Catch exception_class | CatchAll

definition catch_clauses :: "(catch_clause \<times> ReturnStatus) list" where
  "catch_clauses =
     [(Catch PrimpolyError, InternalError),
      (Catch ParserError, RangeError),
      (Catch FactorError, InternalError),
      (Catch BigIntRangeError, InternalError),
      (Catch BigIntDomainError, InternalError),
      (Catch BigIntUnderflow, InternalError),
      (Catch BigIntOverflow, InternalError),
      (Catch BigIntZeroDivide, InternalError),
      (Catch BigIntMathError, InternalError),
      (Catch ArithModPError, InternalError),
      (Catch PolynomialRangeError, RangeError),
      (Catch PolynomialError, InternalError),
      (Catch bad_alloc, InternalError),
      (Catch std_exception, InternalError),
      (CatchAll, InternalError)]"

text \<open>
  The first clause that accepts the thrown object decides; with no such clause the
  exception would leave \<^verbatim>\<open>main()\<close>.
\<close>

fun first_match :: "(catch_clause \<times> ReturnStatus) list \<Rightarrow> exception_class \<Rightarrow> ReturnStatus option" where
  "first_match [] e = None"
| "first_match ((CatchAll, st) # cs) e = Some st"
| "first_match ((Catch h, st) # cs) e = (if is_a e h then Some st else first_match cs e)"

text \<open>\<^verbatim>\<open>main()\<close>: the status returned to the shell, \<open>None\<close> for an uncaught exception.\<close>

definition main :: "'poly collaborators \<Rightarrow> ReturnStatus option" where
  "main env =
     (case try_block env of
        Inr st \<Rightarrow> Some st
      | Inl e \<Rightarrow> first_match catch_clauses e)"

text \<open>The trial polynomial that the loop tests in its \<open>k\<close>-th iteration, counting from 0.\<close>

definition trial_poly :: "'poly collaborators \<Rightarrow> 'poly parser \<Rightarrow> nat \<Rightarrow> 'poly" where
  "trial_poly env ps k = (nextTrialPoly env ^^ k) (initialTrialPoly env (parser_n ps) (parser_p ps))"

text \<open>The tester returns true in iteration \<open>k\<close>.\<close>

definition accepted :: "'poly collaborators \<Rightarrow> 'poly parser \<Rightarrow> nat \<Rightarrow> bool" where
  "accepted env ps k = (isPrimitive env (trial_poly env ps k) = Inr True)"

section \<open>Trial polynomials (Primpoly.h: initial_trial_poly, next_trial_poly)\<close>

text \<open>
  A polynomial is the list of its coefficients \<open>a0, \<dots>, an\<close>, constant term first.
\<close>

type_synonym poly = "nat list"

text \<open>
  Modelled from the spec: the bodies of \<^verbatim>\<open>initialTrialPoly\<close> and \<^verbatim>\<open>nextTrialPoly\<close>
  are in ppPolynomial.cpp (and ppHelperFunc.c for the C version), which are missing;
  only the declarations are at hand.  Section 4.4 of the spec: the initial trial
  polynomial is x^n - 1, that is, a0 = p - 1, a1 \<dots> a(n-1) = 0, an = 1.
\<close>

definition initialTrialPoly_spec :: "nat \<Rightarrow> nat \<Rightarrow> poly" where
  "initialTrialPoly_spec n p = (p - 1) # replicate (n - 1) 0 @ [1]"

text \<open>
  Modelled from the spec: one step of a base-\<open>p\<close> odometer on the digits given, least
  significant first: the first digit is incremented, and a digit that reaches \<open>p\<close>
  becomes 0 and carries into the next.  The result is the new digits and the carry
  out of the last digit.
\<close>

fun odometer_step :: "nat \<Rightarrow> nat list \<Rightarrow> nat list \<times> bool" where
  "odometer_step p [] = ([], True)"
| "odometer_step p (a # as) =
     (if a + 1 < p then ((a + 1) # as, False)
      else (case odometer_step p as of (as', carry) \<Rightarrow> (0 # as', carry)))"

text \<open>
  Modelled from the spec: \<^verbatim>\<open>nextTrialPoly\<close> is the odometer on a0 \<dots> a(n-1) with
  an left as it is; after x^n + (p-1) x^(n-1) + \<dots> + (p-1) it wraps to x^(n+1), which is
  outside the polynomials of degree n and signals exhaustion.
\<close>

definition nextTrialPoly_spec :: "nat \<Rightarrow> poly \<Rightarrow> poly" where
  "nextTrialPoly_spec p f =
     (case odometer_step p (butlast f) of
        (low, carry) \<Rightarrow> if carry then replicate (length f) 0 @ [1] else low @ [last f])"

text \<open>The number that the digits \<open>a0, a1, \<dots>\<close> write in base \<open>p\<close>.\<close>

fun base_p_value :: "nat \<Rightarrow> nat list \<Rightarrow> nat" where
  "base_p_value p [] = 0"
| "base_p_value p (a # as) = a + p * base_p_value p as"

text \<open>A monic polynomial of degree \<open>n\<close> with coefficients in \<open>[0, p)\<close>.\<close>

definition monic_of_degree :: "nat \<Rightarrow> nat \<Rightarrow> poly \<Rightarrow> bool" where
  "monic_of_degree n p f = (length f = n + 1 \<and> last f = 1 \<and> list_all (\<lambda>a. a < p) f)"

text \<open>The polynomial x^(n+1) that signals exhaustion.\<close>

definition exhausted :: "nat \<Rightarrow> poly" where
  "exhausted n = replicate (n + 1) 0 @ [1]"

text \<open>The trial polynomial after \<open>k\<close> steps from the initial one.\<close>

definition trial_poly_spec :: "nat \<Rightarrow> nat \<Rightarrow> nat \<Rightarrow> poly" where
  "trial_poly_spec n p k = (nextTrialPoly_spec p ^^ k) (initialTrialPoly_spec n p)"

section \<open>Concrete runs\<close>

text \<open>
  Small collaborators on which the driver can be run: degree 2 modulo 2 in the mode
  that finds one polynomial, four polynomials in all, the trial polynomials of the
  section before.  In \<open>no_primitive_env\<close> the tester accepts nothing; in \<open>found_env\<close>
  it accepts x^2 + x + 1.
\<close>

definition find_one_2_2 :: "poly parser" where
  "find_one_2_2 =
     \<lparr>print_help = False, test_polynomial_for_primitivity = False,
      list_all_primitive_polynomials = False, print_operation_count = False,
      slow_confirm = False, parser_n = 2, parser_p = 2, test_polynomial = []\<rparr>"

definition no_primitive_env :: "poly collaborators" where
  "no_primitive_env =
     \<lparr>parseCommandLine = Inr find_one_2_2, unitTest_run = Inr True,
      new_PolyOrder = (\<lambda>f. None), isPrimitive = (\<lambda>f. Inr False),
      maximal_order = (\<lambda>f. Inr False), getNumPrimPoly = 1, getMaxNumPoly = 4,
      initialTrialPoly = initialTrialPoly_spec, nextTrialPoly = nextTrialPoly_spec 2\<rparr>"

definition found_env :: "poly collaborators" where
  "found_env = no_primitive_env\<lparr>isPrimitive := (\<lambda>f. Inr (f = [1, 1, 1]))\<rparr>"

definition help_env :: "poly collaborators" where
  "help_env = no_primitive_env\<lparr>parseCommandLine := Inr (find_one_2_2\<lparr>print_help := True\<rparr>)\<rparr>"

definition bad_input_env :: "poly collaborators" where
  "bad_input_env = no_primitive_env\<lparr>parseCommandLine := Inl ParserError\<rparr>"

definition factor_error_env :: "poly collaborators" where
  "factor_error_env = no_primitive_env\<lparr>new_PolyOrder := (\<lambda>f. Some FactorRangeError)\<rparr>"

section \<open>The JKISS step\<close>

lemma jKiss_default_seeds:
  "jKiss default_seeds =
     (560241513, \<lparr>seed_x = 3299314120, seed_y = 2060540012, seed_z = 3790321973, seed_c = 43216022\<rparr>)"
  by (simp add: jKiss_def default_seeds_def Let_def)

lemma jKiss_second_draw:
  "jKiss \<lparr>seed_x = 3299314120, seed_y = 2060540012, seed_z = 3790321973, seed_c = 43216022\<rparr> =
     (2602615593, \<lparr>seed_x = 1026006319, seed_y = 1903927623, seed_z = 3967648947, seed_c = 3789984059\<rparr>)"
  by (simp add: jKiss_def Let_def)

lemma unat_lt32: "unat (w :: ppuint32) < 4294967296"
  using unsigned_less [of w] by simp

lemma unat_xorshift_left:
  "unat (w XOR push_bit n w) = unat w XOR ((unat w * 2 ^ n) mod 2 ^ 32)" for w :: ppuint32
proof -
  have "unat (push_bit n w) = take_bit 32 (push_bit n (unat w))"
    using unsigned_push_bit_eq [of n w, where ?'a = nat] by simp
  then have "unat (push_bit n w) = (unat w * 2 ^ n) mod 2 ^ 32"
    by (simp only: push_bit_eq_mult take_bit_eq_mod)
  then show ?thesis by (simp only: unsigned_xor_eq)
qed

lemma unat_xorshift_right:
  "unat (w XOR drop_bit n w) = unat w XOR (unat w div 2 ^ n)" for w :: ppuint32
proof -
  have "unat (drop_bit n w) = drop_bit n (unat w)"
    by (rule unat_drop_bit_eq)
  also have "\<dots> = unat w div 2 ^ n"
    by (rule drop_bit_eq_div)
  finally show ?thesis by (simp only: unsigned_xor_eq)
qed

lemma unat_ucast_32_64: "unat (ucast (w :: ppuint32) :: ppuint) = unat w"
proof -
  have "unat (ucast w :: ppuint) = take_bit 64 (unat w)"
    using unsigned_ucast_eq [of w, where ?'a = nat and ?'c = 64] by simp
  also have "\<dots> = unat w"
    using unat_lt32 [of w] by (simp add: take_bit_eq_mod)
  finally show ?thesis .
qed

lemma unat_mwc:
  "unat ((4294584393 :: ppuint) * ucast (z :: ppuint32) + ucast (c :: ppuint32)) =
     4294584393 * unat z + unat c"
proof -
  have "4294584393 * unat z + unat c < 2 ^ 64"
    using unat_lt32 [of z] unat_lt32 [of c] by simp
  then show ?thesis
    by (simp add: unat_word_ariths unat_ucast_32_64 mod_simps)
qed

lemma unat_mwc_high: "unat (ucast (drop_bit 32 t) :: ppuint32) = unat t div 2 ^ 32" for t :: ppuint
proof -
  have "unat t < 2 ^ 64" using unsigned_less [of t] by simp
  then have small: "unat t div 2 ^ 32 < 2 ^ 32" by simp
  have "unat (ucast (drop_bit 32 t) :: ppuint32) = take_bit 32 (unat (drop_bit 32 t))"
    using unsigned_ucast_eq [of "drop_bit 32 t", where ?'a = nat and ?'c = 32] by simp
  also have "\<dots> = take_bit 32 (drop_bit 32 (unat t))"
    by (simp only: unat_drop_bit_eq)
  also have "\<dots> = (unat t div 2 ^ 32) mod 2 ^ 32"
    by (simp only: drop_bit_eq_div take_bit_eq_mod)
  also have "\<dots> = unat t div 2 ^ 32"
    using small by (rule mod_less)
  finally show ?thesis .
qed

lemma unat_mwc_low: "unat (ucast t :: ppuint32) = unat t mod 2 ^ 32" for t :: ppuint
  using unsigned_ucast_eq [of t, where ?'a = nat and ?'c = 32] by (simp add: take_bit_eq_mod)

lemma unat_mwc_carry:
  "unat (ucast (drop_bit 32 ((4294584393 :: ppuint) * ucast (z :: ppuint32) + ucast (c :: ppuint32))) :: ppuint32) =
     (4294584393 * unat z + unat c) div 2 ^ 32"
  by (simp only: unat_mwc_high unat_mwc)

lemma unat_mwc_rest:
  "unat (ucast ((4294584393 :: ppuint) * ucast (z :: ppuint32) + ucast (c :: ppuint32)) :: ppuint32) =
     (4294584393 * unat z + unat c) mod 2 ^ 32"
  by (simp only: unat_mwc_low unat_mwc)

lemma unat_lcg:
  "unat (314527869 * w + 1234567 :: ppuint32) = (314527869 * unat w + 1234567) mod 2 ^ 32"
  by (simp add: unat_word_ariths mod_simps)

lemma unat_sum3:
  "unat (a + b + d :: ppuint32) = (unat a + unat b + unat d) mod 2 ^ 32"
  by (simp add: unat_word_ariths mod_simps)

text \<open>
  Claim C10.  \<^verbatim>\<open>jKiss()\<close> is a function of the four seed words alone: read as natural
  numbers, the value it returns and the seeds it leaves are those of the described
  step (x becomes (314527869 x + 1234567) mod 2^32, y goes through the xor-shifts 5,
  7 and 22, t = 4294584393 z + c gives c = t div 2^32 and z = t mod 2^32, and the
  value is (x + y + z) mod 2^32).  Equal seeds therefore give equal values and equal
  successor seeds.
\<close>

theorem jKiss_refines_spec:
  "(unat (fst (jKiss s)), seed_words (snd (jKiss s))) = jKiss_spec (seed_words s)"
  unfolding jKiss_def jKiss_spec_def seed_words_def Let_def
  by (simp only: fst_conv snd_conv prod.case jkiss_state.simps unat_sum3 unat_lcg
      unat_xorshift_left unat_xorshift_right unat_mwc_carry unat_mwc_rest)

section \<open>Values returned by rand()\<close>

lemma redraw_stop: "\<not> kiss > within \<Longrightarrow> redraw within kiss s = Some (kiss, s)"
  by (subst redraw.simps) simp

lemma redraw_again:
  "kiss > within \<Longrightarrow> redraw within kiss s = redraw within (fst (jKiss s)) (snd (jKiss s))"
  by (subst redraw.simps) (simp add: case_prod_beta)

lemma rand_small_range:
  assumes "0 < rng" "rng < 4294967295" "rand rng s = Some (Inr (v, s'))"
  shows "v < rng"
proof -
  have r: "unat (of_nat rng :: ppuint32) = rng"
    using assms(2) by (simp add: unat_of_nat)
  obtain k where "v = unat (k mod (of_nat rng :: ppuint32))"
    using assms by (auto simp: rand_def JKISSMAX_def Let_def split: prod.splits option.splits if_splits)
  then have "v = unat k mod rng" by (simp add: unat_mod_distrib r)
  then show ?thesis using assms(1) by simp
qed

lemma rand_is_the_next_draw:
  assumes "0 < rng" "rng < 4294967295"
  shows "rand rng s =
           (case redraw (JKISSMAX - (JKISSMAX mod of_nat rng)) (fst (jKiss s)) (snd (jKiss s)) of
              None \<Rightarrow> None
            | Some (kiss2, s2) \<Rightarrow> Some (Inr (unat (fst (jKiss s2)) mod rng, snd (jKiss s2))))"
proof -
  have r: "unat (of_nat rng :: ppuint32) = rng"
    using assms(2) by (simp add: unat_of_nat)
  show ?thesis
    using assms
    by (simp add: rand_def JKISSMAX_def Let_def case_prod_beta unat_mod_distrib r split: option.splits)
qed

lemma rand_below_2_32:
  assumes "rand rng s = Some (Inr (v, s'))"
  shows "v < 2 ^ 32"
  using assms unat_lt32
  by (auto simp: rand_def JKISSMAX_def Let_def split: prod.splits option.splits if_splits)

text \<open>
  Claim C4.  With the default seeds and range 2^31 + 1 the first draw, 560241513, is
  not above \<^verbatim>\<open>within_multiple_of_range\<close> = 2147483649 and ends the rejection loop.
  \<^verbatim>\<open>rand()\<close> does not return it: it returns 455131944, which is the following draw
  2602615593 reduced modulo the range, a draw that lies above the limit and that no
  test rejects.
\<close>

theorem rand_returns_the_draw_after_the_accepted_one:
  "first_accepted 2147483649 default_seeds = Some 560241513
   \<and> rand 2147483649 default_seeds =
     Some (Inr (455131944,
       \<lparr>seed_x = 1026006319, seed_y = 1903927623, seed_z = 3967648947, seed_c = 3789984059\<rparr>))
   \<and> unat (560241513 :: ppuint32) mod 2147483649 \<noteq> 455131944"
  by (simp add: first_accepted_def rand_def jKiss_default_seeds jKiss_second_draw JKISSMAX_def redraw_stop)

text \<open>
  Claim C9.  The 10000th construction of a process reseeds; when the entropy device
  delivers the words 2721305742, 1, 0, 0 the seeds are x = 2721305742, y = 1, z = 0,
  c = 1.  A generator with range 2^32 - 1 = \<^verbatim>\<open>JKISSMAX\<close> fails the test
  \<^verbatim>\<open>range < IntType( JKISSMAX )\<close>, so \<^verbatim>\<open>rand()\<close> hands the raw draw through.  With
  these seeds the draw is 4294967295: the value returned equals the range and is not
  in [0, range).
\<close>

theorem rand_with_range_JKISSMAX_returns_the_range:
  "UniformRandomIntegers 9999 [2721305742, 1, 0, 0] =
     (10000, Inr (\<lparr>seed_x = 2721305742, seed_y = 1, seed_z = 0, seed_c = 1\<rparr>, []))
   \<and> rand 4294967295 \<lparr>seed_x = 2721305742, seed_y = 1, seed_z = 0, seed_c = 1\<rparr> =
     Some (Inr (4294967295, \<lparr>seed_x = 4156555229, seed_y = 138412065, seed_z = 1, seed_c = 0\<rparr>))"
proof
  show "UniformRandomIntegers 9999 [2721305742, 1, 0, 0] =
          (10000, Inr (\<lparr>seed_x = 2721305742, seed_y = 1, seed_z = 0, seed_c = 1\<rparr>, []))"
    by (simp add: UniformRandomIntegers_def how_often_to_reseed_def JKISS_MAGIC_NUM_def)
  show "rand 4294967295 \<lparr>seed_x = 2721305742, seed_y = 1, seed_z = 0, seed_c = 1\<rparr> =
          Some (Inr (4294967295, \<lparr>seed_x = 4156555229, seed_y = 138412065, seed_z = 1, seed_c = 0\<rparr>))"
    by (simp add: rand_def jKiss_def Let_def JKISSMAX_def)
qed

section \<open>Reseeding\<close>

lemma construction_without_reseed:
  "(n + 1) mod 10000 \<noteq> 0 \<Longrightarrow> UniformRandomIntegers n dev = (n + 1, Inr (default_seeds, dev))"
  by (simp add: UniformRandomIntegers_def how_often_to_reseed_def)

lemma construction_with_reseed:
  "(n + 1) mod 10000 = 0 \<Longrightarrow> y \<noteq> 0 \<Longrightarrow>
   UniformRandomIntegers n (x # y # z # r # dev) =
     (n + 1, Inr (\<lparr>seed_x = x, seed_y = y, seed_z = z, seed_c = r mod JKISS_MAGIC_NUM + 1\<rparr>, dev))"
  by (simp add: UniformRandomIntegers_def how_often_to_reseed_def)

lemma ten_thousandth_construction:
  "UniformRandomIntegers 9999 [5, 0, 6, 7, 698769068, 9] =
     (10000, Inr (\<lparr>seed_x = 5, seed_y = 6, seed_z = 7, seed_c = 1\<rparr>, [9]))"
  by (simp add: UniformRandomIntegers_def how_often_to_reseed_def JKISS_MAGIC_NUM_def)

text \<open>
  Claim C5.  The first construction of a process (counter 0) increments the counter
  to 1, and 1 is not a multiple of 10000: the generator keeps the default seeds and
  the entropy device is not read.  The generator is not reseeded on the first
  construction.
\<close>

theorem first_construction_does_not_reseed:
  "UniformRandomIntegers 0 dev = (1, Inr (default_seeds, dev))"
  by (simp add: UniformRandomIntegers_def how_often_to_reseed_def)

section \<open>Exit statuses\<close>

lemma first_match_catch_clauses:
  "first_match catch_clauses e =
     Some (if is_a e ParserError \<or> is_a e PolynomialRangeError then RangeError else InternalError)"
  by (cases e) (simp_all add: catch_clauses_def is_a_def)

lemma try_block_status: "try_block env = Inr st \<Longrightarrow> st = Success \<or> st = AskForHelp"
  by (auto simp: try_block_def Let_def split: sum.splits if_splits option.splits)

lemma try_block_help:
  "parseCommandLine env = Inr ps \<Longrightarrow> try_block env = Inr AskForHelp \<longleftrightarrow> print_help ps"
  by (auto simp: try_block_def Let_def split: sum.splits if_splits option.splits)

text \<open>
  Claim C8.  \<^verbatim>\<open>main()\<close> always returns a status, and its code is one of 0, 1, 2, 3, 4.
  A help request gives 1.  An exception that is a ParserError or a
  PolynomialRangeError gives 3; every other exception (PrimpolyError, the factor,
  BigInt, modulo p arithmetic and polynomial errors, \<^verbatim>\<open>bad_alloc\<close>, any other standard
  exception and any object of another type) gives 4.  A normal return that is not a
  help request gives 0.
\<close>

theorem main_exit_status:
  "(\<exists>st. main env = Some st \<and> status_code st \<in> {0, 1, 2, 3, 4})
   \<and> (\<forall>ps. parseCommandLine env = Inr ps \<and> print_help ps
          \<longrightarrow> map_option status_code (main env) = Some 1)
   \<and> (\<forall>e. try_block env = Inl e \<and> (is_a e ParserError \<or> is_a e PolynomialRangeError)
          \<longrightarrow> map_option status_code (main env) = Some 3)
   \<and> (\<forall>e. try_block env = Inl e \<and> \<not> is_a e ParserError \<and> \<not> is_a e PolynomialRangeError
          \<longrightarrow> map_option status_code (main env) = Some 4)
   \<and> (\<forall>ps st. parseCommandLine env = Inr ps \<and> \<not> print_help ps \<and> try_block env = Inr st
          \<longrightarrow> map_option status_code (main env) = Some 0)"
proof (intro conjI allI impI)
  show "\<exists>st. main env = Some st \<and> status_code st \<in> {0, 1, 2, 3, 4}"
  proof (cases "try_block env")
    case (Inl e)
    then show ?thesis by (simp add: main_def first_match_catch_clauses)
  next
    case (Inr st)
    then show ?thesis using try_block_status [OF Inr] by (auto simp: main_def)
  qed
next
  fix ps assume "parseCommandLine env = Inr ps \<and> print_help ps"
  then show "map_option status_code (main env) = Some 1"
    by (simp add: main_def try_block_def)
next
  fix e assume "try_block env = Inl e \<and> (is_a e ParserError \<or> is_a e PolynomialRangeError)"
  then show "map_option status_code (main env) = Some 3"
    by (auto simp: main_def first_match_catch_clauses)
next
  fix e assume "try_block env = Inl e \<and> \<not> is_a e ParserError \<and> \<not> is_a e PolynomialRangeError"
  then show "map_option status_code (main env) = Some 4"
    by (simp add: main_def first_match_catch_clauses)
next
  fix ps st assume a: "parseCommandLine env = Inr ps \<and> \<not> print_help ps \<and> try_block env = Inr st"
  then have "st \<noteq> AskForHelp" using try_block_help [of env ps] by auto
  then have "st = Success" using try_block_status [of env st] a by auto
  then show "map_option status_code (main env) = Some 0"
    using a by (simp add: main_def)
qed

lemma try_block_found_env: "try_block found_env = Inr Success"
  by code_simp

lemma try_block_factor_error_env: "try_block factor_error_env = Inl FactorRangeError"
  by (simp add: try_block_def factor_error_env_def no_primitive_env_def find_one_2_2_def self_check_def)

lemma try_block_bad_input_env: "try_block bad_input_env = Inl ParserError"
  by (simp add: try_block_def bad_input_env_def no_primitive_env_def)

theorem main_exit_status_witness:
  "map_option status_code (main help_env) = Some 1
   \<and> map_option status_code (main bad_input_env) = Some 3
   \<and> map_option status_code (main factor_error_env) = Some 4
   \<and> map_option status_code (main found_env) = Some 0"
proof (intro conjI)
  have "parseCommandLine help_env = Inr (find_one_2_2\<lparr>print_help := True\<rparr>) \<and> print_help (find_one_2_2\<lparr>print_help := True\<rparr>)"
    by (simp add: help_env_def no_primitive_env_def)
  with main_exit_status [of help_env] show "map_option status_code (main help_env) = Some 1"
    by blast
next
  have "try_block bad_input_env = Inl ParserError \<and> (is_a ParserError ParserError \<or> is_a ParserError PolynomialRangeError)"
    by (simp add: try_block_bad_input_env is_a_def)
  with main_exit_status [of bad_input_env] show "map_option status_code (main bad_input_env) = Some 3"
    by blast
next
  have "try_block factor_error_env = Inl FactorRangeError \<and> \<not> is_a FactorRangeError ParserError \<and> \<not> is_a FactorRangeError PolynomialRangeError"
    by (simp add: try_block_factor_error_env is_a_def)
  with main_exit_status [of factor_error_env] show "map_option status_code (main factor_error_env) = Some 4"
    by blast
next
  have "parseCommandLine found_env = Inr find_one_2_2 \<and> \<not> print_help find_one_2_2 \<and> try_block found_env = Inr Success"
    by (simp add: try_block_found_env) (simp add: found_env_def no_primitive_env_def find_one_2_2_def)
  with main_exit_status [of found_env] show "map_option status_code (main found_env) = Some 0"
    by blast
qed


section \<open>Exhausting the trial polynomials\<close>

lemma search_loop_none_primitive:
  assumes "\<And>i. j + i < max (j + 1) (getMaxNumPoly env) \<Longrightarrow>
             isPrimitive env ((nextTrialPoly env ^^ i) f) = Inr False"
  shows "search_loop env ps f j np out =
           Inr \<lparr>is_primitive_poly = False, num_poly = max (j + 1) (getMaxNumPoly env),
                num_primitive_poly = np, reported = out\<rparr>"
  using assms
proof (induction "getMaxNumPoly env - (j + 1)" arbitrary: f j)
  case 0
  have "isPrimitive env f = Inr False" using "0.prems" [of 0] by simp
  moreover have "getMaxNumPoly env \<le> j + 1" using "0.hyps" by simp
  ultimately show ?case
    by (subst search_loop.simps) (simp add: max_def)
next
  case (Suc d)
  have f: "isPrimitive env f = Inr False" using Suc.prems [of 0] by simp
  have lt: "j + 1 < getMaxNumPoly env" using Suc.hyps(2) by simp
  have d: "d = getMaxNumPoly env - (j + 1 + 1)" using Suc.hyps(2) by simp
  have "search_loop env ps (nextTrialPoly env f) (j + 1) np out =
          Inr \<lparr>is_primitive_poly = False, num_poly = max (j + 1 + 1) (getMaxNumPoly env),
               num_primitive_poly = np, reported = out\<rparr>"
  proof (rule Suc.hyps(1) [OF d])
    fix i
    assume "j + 1 + i < max (j + 1 + 1) (getMaxNumPoly env)"
    then have "j + Suc i < max (j + 1) (getMaxNumPoly env)" using lt by simp
    from Suc.prems [OF this]
    show "isPrimitive env ((nextTrialPoly env ^^ i) (nextTrialPoly env f)) = Inr False"
      by (simp add: funpow_swap1)
  qed
  then show ?case using f lt
    by (subst search_loop.simps) (simp add: max_def)
qed

text \<open>
  Claim C3.  In the mode that finds one polynomial (no help request, self check
  passed, no polynomial to test, not listing all), if the tester rejects every trial
  polynomial of the iterations that the loop runs until \<^verbatim>\<open>num_poly\<close> reaches
  \<^verbatim>\<open>getMaxNumPoly()\<close>, then the \<^verbatim>\<open>try\<close> block is left by a PolynomialError and
  \<^verbatim>\<open>main()\<close> returns InternalError.
\<close>

theorem find_one_exhausted_is_internal_error:
  assumes "parseCommandLine env = Inr ps"
    and "\<not> print_help ps"
    and "unitTest_run env = Inr True"
    and "\<not> test_polynomial_for_primitivity ps"
    and "\<not> list_all_primitive_polynomials ps"
    and "new_PolyOrder env (trial_poly env ps 0) = None"
    and "\<forall>k. k < max 1 (getMaxNumPoly env) \<longrightarrow> isPrimitive env (trial_poly env ps k) = Inr False"
  shows "try_block env = Inl PolynomialError \<and> main env = Some InternalError"
proof -
  have "search_loop env ps (trial_poly env ps 0) 0 0 [] =
          Inr \<lparr>is_primitive_poly = False, num_poly = max (0 + 1) (getMaxNumPoly env),
               num_primitive_poly = 0, reported = []\<rparr>"
    by (rule search_loop_none_primitive) (use assms(7) in \<open>simp add: trial_poly_def\<close>)
  then have "try_block env = Inl PolynomialError"
    using assms(1-6) by (simp add: try_block_def self_check_def trial_poly_def)
  then show ?thesis
    by (simp add: main_def first_match_catch_clauses is_a_def)
qed

theorem find_one_exhausted_is_internal_error_witness:
  "try_block no_primitive_env = Inl PolynomialError \<and> main no_primitive_env = Some InternalError"
proof (rule find_one_exhausted_is_internal_error [where ps = find_one_2_2])
  show "parseCommandLine no_primitive_env = Inr find_one_2_2"
    by (simp add: no_primitive_env_def)
  show "\<not> print_help find_one_2_2"
    by (simp add: find_one_2_2_def)
  show "unitTest_run no_primitive_env = Inr True"
    by (simp add: no_primitive_env_def)
  show "\<not> test_polynomial_for_primitivity find_one_2_2"
    by (simp add: find_one_2_2_def)
  show "\<not> list_all_primitive_polynomials find_one_2_2"
    by (simp add: find_one_2_2_def)
  show "new_PolyOrder no_primitive_env (trial_poly no_primitive_env find_one_2_2 0) = None"
    by (simp add: no_primitive_env_def)
  show "\<forall>k. k < max 1 (getMaxNumPoly no_primitive_env) \<longrightarrow>
          isPrimitive no_primitive_env (trial_poly no_primitive_env find_one_2_2 k) = Inr False"
    by (simp add: no_primitive_env_def)
qed

section \<open>Listing all primitive polynomials\<close>

text \<open>
  The loop in the mode that lists all polynomials, without the slow confirmation and
  with a tester that throws nothing: when iteration \<open>m\<close> is the one in which the
  count of accepted polynomials reaches \<^verbatim>\<open>getNumPrimPoly()\<close>, the loop is left there
  by the \<^verbatim>\<open>break\<close>, after \<open>m + 1\<close> tests, and the polynomials reported are the
  accepted ones among the first \<open>m + 1\<close> trial polynomials.
\<close>

lemma trial_poly_Suc: "trial_poly env ps (Suc k) = nextTrialPoly env (trial_poly env ps k)"
  by (simp add: trial_poly_def)

lemma count_accepted_mono:
  "i \<le> j \<Longrightarrow> length (filter P [0..<i]) \<le> length (filter P [0..<j])" for P :: "nat \<Rightarrow> bool"
proof (induction j)
  case 0
  then show ?case by simp
next
  case (Suc j)
  then show ?case by (cases "i = Suc j") auto
qed

lemma find_all_stops_at_last_primitive_aux:
  assumes all: "list_all_primitive_polynomials ps"
    and noslow: "\<not> slow_confirm ps"
    and ret: "\<And>k. k \<le> m \<Longrightarrow> isPrimitive env (trial_poly env ps k) = Inr (accepted env ps k)"
    and last: "accepted env ps m"
    and count: "length (filter (accepted env ps) [0..<Suc m]) = getNumPrimPoly env"
    and bound: "m < max 1 (getMaxNumPoly env)"
  shows "j \<le> m \<Longrightarrow>
         search_loop env ps (trial_poly env ps j) j
             (length (filter (accepted env ps) [0..<j]))
             (map (trial_poly env ps) (filter (accepted env ps) [0..<j])) =
           Inr \<lparr>is_primitive_poly = True, num_poly = Suc m,
                num_primitive_poly = getNumPrimPoly env,
                reported = map (trial_poly env ps) (filter (accepted env ps) [0..<Suc m])\<rparr>"
proof (induction "m - j" arbitrary: j)
  case 0
  then have j: "j = m" by simp
  show ?case
    using last count ret [of m]
    by (subst search_loop.simps) (simp add: j confirm_slowly_def noslow)
next
  case (Suc d)
  then have lt: "j < m" and d: "d = m - Suc j" and le: "Suc j \<le> m" by simp_all
  have IH: "search_loop env ps (trial_poly env ps (Suc j)) (Suc j)
             (length (filter (accepted env ps) [0..<Suc j]))
             (map (trial_poly env ps) (filter (accepted env ps) [0..<Suc j])) =
           Inr \<lparr>is_primitive_poly = True, num_poly = Suc m,
                num_primitive_poly = getNumPrimPoly env,
                reported = map (trial_poly env ps) (filter (accepted env ps) [0..<Suc m])\<rparr>"
    by (rule Suc.hyps(1) [OF d le])
  have "length (filter (accepted env ps) [0..<Suc j]) \<le> length (filter (accepted env ps) [0..<m])"
    using le by (rule count_accepted_mono)
  also have "\<dots> < getNumPrimPoly env"
    using count last by simp
  finally have below: "length (filter (accepted env ps) [0..<Suc j]) < getNumPrimPoly env" .
  have more: "Suc j < getMaxNumPoly env" using lt bound by (simp add: max_def split: if_splits)
  show ?case
  proof (cases "accepted env ps j")
    case True
    then have test: "isPrimitive env (trial_poly env ps j) = Inr True"
      using ret [of j] lt by simp
    have IH': "search_loop env ps (nextTrialPoly env (trial_poly env ps j)) (j + 1)
             (length (filter (accepted env ps) [0..<j]) + 1)
             (map (trial_poly env ps) (filter (accepted env ps) [0..<j]) @ [trial_poly env ps j]) =
           Inr \<lparr>is_primitive_poly = True, num_poly = Suc m,
                num_primitive_poly = getNumPrimPoly env,
                reported = map (trial_poly env ps) (filter (accepted env ps) [0..<Suc m])\<rparr>"
      using IH True by (simp add: trial_poly_Suc)
    have below': "\<not> getNumPrimPoly env \<le> length (filter (accepted env ps) [0..<j]) + 1"
      using below True by simp
    have more': "\<not> getMaxNumPoly env \<le> j + 1" using more by simp
    show ?thesis
      by (subst search_loop.simps)
         (simp only: test IH' below' more' all noslow confirm_slowly_def Let_def sum.case
            if_True if_False option.case simp_thms)
  next
    case False
    then have test: "isPrimitive env (trial_poly env ps j) = Inr False"
      using ret [of j] lt by simp
    have IH': "search_loop env ps (nextTrialPoly env (trial_poly env ps j)) (j + 1)
             (length (filter (accepted env ps) [0..<j]))
             (map (trial_poly env ps) (filter (accepted env ps) [0..<j])) =
           Inr \<lparr>is_primitive_poly = True, num_poly = Suc m,
                num_primitive_poly = getNumPrimPoly env,
                reported = map (trial_poly env ps) (filter (accepted env ps) [0..<Suc m])\<rparr>"
      using IH False by (simp add: trial_poly_Suc)
    have more': "\<not> getMaxNumPoly env \<le> j + 1" using more by simp
    show ?thesis
      by (subst search_loop.simps)
         (simp only: test IH' more' all noslow confirm_slowly_def Let_def sum.case
            if_True if_False option.case simp_thms)
  qed
qed

lemma find_all_stops_at_last_primitive:
  assumes "list_all_primitive_polynomials ps"
    and "\<not> slow_confirm ps"
    and "\<And>k. k \<le> m \<Longrightarrow> isPrimitive env (trial_poly env ps k) = Inr (accepted env ps k)"
    and "accepted env ps m"
    and "length (filter (accepted env ps) [0..<Suc m]) = getNumPrimPoly env"
    and "m < max 1 (getMaxNumPoly env)"
  shows "search_loop env ps (trial_poly env ps 0) 0 0 [] =
           Inr \<lparr>is_primitive_poly = True, num_poly = Suc m,
                num_primitive_poly = getNumPrimPoly env,
                reported = map (trial_poly env ps) (filter (accepted env ps) [0..<Suc m])\<rparr>"
  using find_all_stops_at_last_primitive_aux [OF assms, of 0] by simp


section \<open>The odometer of trial polynomials\<close>

lemma base_p_value_less:
  "list_all (\<lambda>a. a < p) ds \<Longrightarrow> base_p_value p ds < p ^ length ds"
proof (induction ds)
  case Nil
  then show ?case by simp
next
  case (Cons a ds)
  then have a: "a < p" and v: "base_p_value p ds < p ^ length ds" by simp_all
  from v have "base_p_value p ds + 1 \<le> p ^ length ds" by simp
  then have "p * (base_p_value p ds + 1) \<le> p * p ^ length ds" by (rule mult_le_mono2)
  then show ?case using a by simp
qed

lemma base_p_value_zeros: "base_p_value p (replicate m 0) = 0"
  by (induction m) simp_all

lemma odometer_step_length: "odometer_step p ds = (ds', c) \<Longrightarrow> length ds' = length ds"
  by (induction ds arbitrary: ds' c) (auto split: if_splits prod.splits)

lemma odometer_step_digits:
  "list_all (\<lambda>a. a < p) ds \<Longrightarrow> odometer_step p ds = (ds', c) \<Longrightarrow> list_all (\<lambda>a. a < p) ds'"
  by (induction ds arbitrary: ds' c) (auto split: if_splits prod.splits)

lemma odometer_step_value:
  "list_all (\<lambda>a. a < p) ds \<Longrightarrow> odometer_step p ds = (ds', c) \<Longrightarrow>
     base_p_value p ds' + (if c then p ^ length ds else 0) = base_p_value p ds + 1"
proof (induction ds arbitrary: ds' c)
  case Nil
  then show ?case by simp
next
  case (Cons a ds)
  show ?case
  proof (cases "a + 1 < p")
    case True
    with Cons.prems show ?thesis by auto
  next
    case False
    with Cons.prems have a: "a + 1 = p" by simp
    obtain es c' where step: "odometer_step p ds = (es, c')" by (cases "odometer_step p ds")
    with Cons.prems False have r: "ds' = 0 # es" "c = c'" by simp_all
    have "base_p_value p es + (if c' then p ^ length ds else 0) = base_p_value p ds + 1"
      using Cons.IH [OF _ step] Cons.prems(1) by simp
    then have "p * (base_p_value p es + (if c' then p ^ length ds else 0)) = p * (base_p_value p ds + 1)"
      by simp
    then show ?thesis using a r by (simp add: algebra_simps split: if_splits)
  qed
qed

lemma odometer_step_no_carry:
  assumes "list_all (\<lambda>a. a < p) ds" "base_p_value p ds + 1 < p ^ length ds" "odometer_step p ds = (ds', c)"
  shows "\<not> c \<and> base_p_value p ds' = base_p_value p ds + 1"
proof -
  have eq: "base_p_value p ds' + (if c then p ^ length ds else 0) = base_p_value p ds + 1"
    using odometer_step_value [OF assms(1,3)] .
  then have "\<not> c" using assms(2) by (auto split: if_splits)
  then show ?thesis using eq by simp
qed

lemma odometer_step_carry:
  assumes "list_all (\<lambda>a. a < p) ds" "base_p_value p ds + 1 = p ^ length ds" "odometer_step p ds = (ds', c)"
  shows "c"
proof (rule ccontr)
  assume "\<not> c"
  then have "base_p_value p ds' = base_p_value p ds + 1"
    using odometer_step_value [OF assms(1,3)] by simp
  moreover have "base_p_value p ds' < p ^ length ds'"
    using odometer_step_digits [OF assms(1,3)] by (rule base_p_value_less)
  ultimately show False
    using assms(2) odometer_step_length [OF assms(3)] by simp
qed

lemma monic_initialTrialPoly_spec:
  assumes "2 \<le> p" "1 \<le> n"
  shows "monic_of_degree n p (initialTrialPoly_spec n p)"
    and "base_p_value p (butlast (initialTrialPoly_spec n p)) = p - 1"
  using assms
  by (simp_all add: monic_of_degree_def initialTrialPoly_spec_def butlast_append base_p_value_zeros list_all_iff)

lemma nextTrialPoly_spec_no_wrap:
  assumes "monic_of_degree n p f" "base_p_value p (butlast f) + 1 < p ^ n"
  shows "monic_of_degree n p (nextTrialPoly_spec p f)"
    and "base_p_value p (butlast (nextTrialPoly_spec p f)) = base_p_value p (butlast f) + 1"
proof -
  obtain ds' c where step: "odometer_step p (butlast f) = (ds', c)"
    by (cases "odometer_step p (butlast f)")
  have len: "length (butlast f) = n" using assms(1) by (simp add: monic_of_degree_def)
  have f_ne: "f \<noteq> []" using assms(1) by (auto simp: monic_of_degree_def)
  have digits: "list_all (\<lambda>a. a < p) (butlast f)"
    using assms(1) by (auto simp: monic_of_degree_def list_all_iff dest: in_set_butlastD)
  have last_lt: "last f < p"
    using assms(1) last_in_set [OF f_ne] by (simp add: monic_of_degree_def list_all_iff)
  have nc: "\<not> c" and v: "base_p_value p ds' = base_p_value p (butlast f) + 1"
    using odometer_step_no_carry [OF digits _ step] assms(2) len by simp_all
  have next_eq: "nextTrialPoly_spec p f = ds' @ [last f]"
    using step nc by (simp add: nextTrialPoly_spec_def)
  show "monic_of_degree n p (nextTrialPoly_spec p f)"
    using odometer_step_length [OF step] odometer_step_digits [OF digits step] len last_lt assms(1)
    by (simp add: next_eq monic_of_degree_def)
  show "base_p_value p (butlast (nextTrialPoly_spec p f)) = base_p_value p (butlast f) + 1"
    using v by (simp add: next_eq)
qed

lemma nextTrialPoly_spec_wrap:
  assumes "monic_of_degree n p f" "base_p_value p (butlast f) + 1 = p ^ n"
  shows "nextTrialPoly_spec p f = exhausted n"
proof -
  obtain ds' c where step: "odometer_step p (butlast f) = (ds', c)"
    by (cases "odometer_step p (butlast f)")
  have len: "length (butlast f) = n" "length f = n + 1" using assms(1) by (simp_all add: monic_of_degree_def)
  have digits: "list_all (\<lambda>a. a < p) (butlast f)"
    using assms(1) by (auto simp: monic_of_degree_def list_all_iff dest: in_set_butlastD)
  have "c" using odometer_step_carry [OF digits _ step] assms(2) len by simp
  then show ?thesis using step len by (simp add: nextTrialPoly_spec_def exhausted_def)
qed

lemma trial_poly_spec_Suc: "trial_poly_spec n p (Suc k) = nextTrialPoly_spec p (trial_poly_spec n p k)"
  by (simp add: trial_poly_spec_def)

lemma trial_poly_spec_value:
  assumes "2 \<le> p" "1 \<le> n"
  shows "k \<le> p ^ n - p \<Longrightarrow>
           monic_of_degree n p (trial_poly_spec n p k) \<and>
           base_p_value p (butlast (trial_poly_spec n p k)) = p - 1 + k"
proof (induction k)
  case 0
  show ?case using monic_initialTrialPoly_spec [OF assms] by (simp add: trial_poly_spec_def)
next
  case (Suc k)
  then have IH: "monic_of_degree n p (trial_poly_spec n p k)"
    "base_p_value p (butlast (trial_poly_spec n p k)) = p - 1 + k" by simp_all
  have "p - 1 + k + 1 < p ^ n" using Suc.prems assms(1) by simp
  then have "base_p_value p (butlast (trial_poly_spec n p k)) + 1 < p ^ n" using IH(2) by simp
  from nextTrialPoly_spec_no_wrap [OF IH(1) this] IH(2) show ?case
    by (simp add: trial_poly_spec_Suc)
qed

lemma p_le_power: "2 \<le> p \<Longrightarrow> 1 \<le> n \<Longrightarrow> p \<le> p ^ n" for p n :: nat
  using self_le_power [of p n] by simp

text \<open>
  Claim C6.  For a modulus p \<ge> 2 and a degree n \<ge> 1, the trial polynomial after k
  steps from x^n - 1 is, for every k up to p^n - p, a monic polynomial of degree n
  with coefficients below p whose low coefficients a0 \<dots> a(n-1) write the number
  p - 1 + k in base p: each step adds one to that number, with a(n) = 1 throughout.
  So no polynomial is visited twice in these steps, and the step after the last of
  them wraps to x^(n+1), the signal of exhaustion.
\<close>

theorem trial_polys_are_an_odometer:
  assumes "2 \<le> p" and "1 \<le> n"
  shows "(\<forall>k. k \<le> p ^ n - p \<longrightarrow>
            monic_of_degree n p (trial_poly_spec n p k) \<and>
            base_p_value p (butlast (trial_poly_spec n p k)) = p - 1 + k)
         \<and> (\<forall>i j. i < j \<and> j \<le> p ^ n - p \<longrightarrow> trial_poly_spec n p i \<noteq> trial_poly_spec n p j)
         \<and> trial_poly_spec n p (p ^ n - p + 1) = exhausted n"
proof -
  have vals: "\<forall>k. k \<le> p ^ n - p \<longrightarrow>
            monic_of_degree n p (trial_poly_spec n p k) \<and>
            base_p_value p (butlast (trial_poly_spec n p k)) = p - 1 + k"
    using trial_poly_spec_value [OF assms] by blast
  have distinct: "trial_poly_spec n p i \<noteq> trial_poly_spec n p j" if ij: "i < j \<and> j \<le> p ^ n - p" for i j
  proof -
    have "base_p_value p (butlast (trial_poly_spec n p i)) = p - 1 + i"
      and "base_p_value p (butlast (trial_poly_spec n p j)) = p - 1 + j"
      using trial_poly_spec_value [OF assms, of i] trial_poly_spec_value [OF assms, of j] ij by simp_all
    then show ?thesis using ij by auto
  qed
  have last: "monic_of_degree n p (trial_poly_spec n p (p ^ n - p))"
    "base_p_value p (butlast (trial_poly_spec n p (p ^ n - p))) = p - 1 + (p ^ n - p)"
    using trial_poly_spec_value [OF assms, of "p ^ n - p"] by simp_all
  have "p - 1 + (p ^ n - p) + 1 = p ^ n" using p_le_power [OF assms] assms(1) by simp
  then have "base_p_value p (butlast (trial_poly_spec n p (p ^ n - p))) + 1 = p ^ n"
    using last(2) by simp
  from nextTrialPoly_spec_wrap [OF last(1) this]
  have wrap: "trial_poly_spec n p (p ^ n - p + 1) = exhausted n"
    by (simp add: trial_poly_spec_Suc)
  show ?thesis using vals distinct wrap by blast
qed

theorem trial_polys_are_an_odometer_witness:
  "monic_of_degree 2 3 (trial_poly_spec 2 3 4)
   \<and> base_p_value 3 (butlast (trial_poly_spec 2 3 4)) = 6
   \<and> trial_poly_spec 2 3 1 \<noteq> trial_poly_spec 2 3 5
   \<and> trial_poly_spec 2 3 7 = exhausted 2"
proof -
  have h: "(2::nat) \<le> 3" "(1::nat) \<le> 2" by simp_all
  note odo = trial_polys_are_an_odometer [OF h]
  have k: "(4::nat) \<le> 3 ^ 2 - 3" and ij: "(1::nat) < 5 \<and> (5::nat) \<le> 3 ^ 2 - 3" by simp_all
  have "monic_of_degree 2 3 (trial_poly_spec 2 3 4) \<and>
        base_p_value 3 (butlast (trial_poly_spec 2 3 4)) = 3 - 1 + 4"
    using odo k by blast
  moreover have "trial_poly_spec 2 3 1 \<noteq> trial_poly_spec 2 3 5"
    using odo ij by blast
  moreover have "trial_poly_spec 2 3 (3 ^ 2 - 3 + 1) = exhausted 2"
    using odo by blast
  ultimately show ?thesis by simp
qed


end
